theory Spec2Isabelle
  imports Complex_Main
begin

section \<open>The Berg-entropy Sinkhorn core of fastuot (numpy\_berg.py)\<close>

text \<open>
  The module works on NumPy arrays of float64. The embedding reads a float as a
  \<^typ>\<open>real\<close> and a one-dimensional array as a \<^typ>\<open>real list\<close>; \<open>np.exp\<close> and
  \<open>np.log\<close> are \<^const>\<open>exp\<close> and \<^const>\<open>ln\<close>. Rounding, \<open>inf\<close> and \<open>nan\<close> are not
  part of this reading: where IEEE arithmetic would produce a non-finite value (a division by
  zero, the logarithm of a non-positive number) the definitions below hold HOL's value
  of the same expression. The theorems either equate a function of the code with a
  description that performs the same operations, or evaluate it where every divisor is
  non-zero and every logarithm is taken of a positive number.
  A broadcasting failure of NumPy (\<open>ValueError\<close>) is a value of the result type.
\<close>

type_synonym vec = "real list"

datatype error = ValueError | IndexError | TypeError

subsection \<open>Array primitives\<close>

text \<open>Elementwise operations between an array and a scalar.\<close>

definition vneg :: "vec \<Rightarrow> vec" where
  "vneg u = map uminus u"

definition vadd_s :: "vec \<Rightarrow> real \<Rightarrow> vec" where
  "vadd_s u c = map (\<lambda>x. x + c) u"

definition vsub_s :: "vec \<Rightarrow> real \<Rightarrow> vec" where
  "vsub_s u c = map (\<lambda>x. x - c) u"

definition s_sub_v :: "real \<Rightarrow> vec \<Rightarrow> vec" where
  "s_sub_v c u = map (\<lambda>x. c - x) u"

definition s_add_v :: "real \<Rightarrow> vec \<Rightarrow> vec" where
  "s_add_v c u = map (\<lambda>x. c + x) u"

definition s_mul_v :: "real \<Rightarrow> vec \<Rightarrow> vec" where
  "s_mul_v c u = map (\<lambda>x. c * x) u"

definition vdiv_s :: "vec \<Rightarrow> real \<Rightarrow> vec" where
  "vdiv_s u c = map (\<lambda>x. x / c) u"

definition s_div_v :: "real \<Rightarrow> vec \<Rightarrow> vec" where
  "s_div_v c u = map (\<lambda>x. c / x) u"

definition vsquare :: "vec \<Rightarrow> vec" where
  "vsquare u = map (\<lambda>x. x ^ 2) u"

definition vexp :: "vec \<Rightarrow> vec" where
  "vexp u = map exp u"

definition vlog :: "vec \<Rightarrow> vec" where
  "vlog u = map ln u"

text \<open>
  Elementwise operations between two arrays that the code derives from one array, so
  that their lengths agree by construction (\<open>z\<close> and \<open>x\<close> inside \<open>log_lambertw\<close>).
\<close>

definition vadd :: "vec \<Rightarrow> vec \<Rightarrow> vec" where
  "vadd u v = map2 (+) u v"

definition vsub :: "vec \<Rightarrow> vec \<Rightarrow> vec" where
  "vsub u v = map2 (-) u v"

definition vmul :: "vec \<Rightarrow> vec \<Rightarrow> vec" where
  "vmul u v = map2 (*) u v"

definition vdiv :: "vec \<Rightarrow> vec \<Rightarrow> vec" where
  "vdiv u v = map2 (/) u v"

definition vmaximum_s :: "vec \<Rightarrow> real \<Rightarrow> vec" where
  "vmaximum_s u c = map (\<lambda>x. max x c) u"

text \<open>
  Boolean-mask indexing. \<open>x[mask]\<close> keeps the entries of \<open>x\<close> where the mask holds;
  \<open>z[mask] = vals\<close> writes the entries of \<open>vals\<close>, in order, to the positions of \<open>z\<close>
  where the mask holds; \<open>z[mask] = c\<close> writes the scalar \<open>c\<close> there. In the code every
  mask is computed from the array it indexes and the values from the same mask, so the
  lengths agree; the last equations of \<open>compress\<close> and \<open>mask_put\<close> are never reached.
\<close>

fun compress :: "bool list \<Rightarrow> vec \<Rightarrow> vec" where
  "compress (c # cs) (x # xs) = (if c then x # compress cs xs else compress cs xs)"
| "compress _ _ = []"

fun mask_put :: "vec \<Rightarrow> bool list \<Rightarrow> vec \<Rightarrow> vec" where
  "mask_put (z # zs) (True # cs) (v # vs) = v # mask_put zs cs vs"
| "mask_put (z # zs) (False # cs) vs = z # mask_put zs cs vs"
| "mask_put zs _ _ = zs"

definition mask_fill :: "vec \<Rightarrow> bool list \<Rightarrow> real \<Rightarrow> vec" where
  "mask_fill z m c = map2 (\<lambda>zi mi. if mi then c else zi) z m"

definition zeros_like :: "vec \<Rightarrow> vec" where
  "zeros_like x = replicate (length x) 0"

subsection \<open>Lambert function\<close>

text \<open>The inner function \<open>pade\<close> of \<open>init_lambertw\<close>, on arrays.\<close>

definition pade :: "vec \<Rightarrow> vec" where
  "pade x =
     vdiv (vmul x (vadd (s_add_v 3 (s_mul_v 6 x)) (vsquare x)))
          (vadd (s_add_v 3 (s_mul_v 9 x)) (s_mul_v 5 (vsquare x)))"

definition init_lambertw :: "vec \<Rightarrow> vec" where
  "init_lambertw x =
     (let z0 = zeros_like x;
          gt1 = map (\<lambda>xi. xi > 1) x;
          z0 = mask_put z0 gt1 (compress gt1 x);
          lt2 = map (\<lambda>xi. xi < - 2) x;
          z0 = mask_put z0 lt2
                 (vmul (vexp (compress lt2 x)) (s_sub_v 1 (vexp (compress lt2 x))));
          mid = map (\<lambda>xi. xi \<le> 1 \<and> xi \<ge> - 2) x;
          z0 = mask_put z0 mid (pade (vexp (compress mid x)));
          z0 = mask_fill z0 (map (\<lambda>zi. zi = 0) z0) (1 / 10 ^ 6)
      in z0)"

text \<open>The inner functions \<open>a\<close> and \<open>b\<close> of \<open>log_lambertw\<close>; \<open>a\<close> closes over \<open>x\<close>.\<close>

definition lw_a :: "vec \<Rightarrow> vec \<Rightarrow> vec" where
  "lw_a x w =
     vdiv (vmul w (vsub (vadd (vlog (vadd_s w (1 / 10 ^ 17))) w) x)) (s_add_v 1 w)"

definition lw_b :: "vec \<Rightarrow> vec" where
  "lw_b w = s_div_v (- 1) (vmul w (s_add_v 1 w))"

text \<open>One pass of the body of the \<open>for i in range(5)\<close> loop.\<close>

definition lw_body :: "vec \<Rightarrow> vec \<Rightarrow> vec" where
  "lw_body x z =
     (let c = lw_a x z
      in vmaximum_s
           (vsub z (vdiv c (s_sub_v 1 (vmul (s_mul_v (1 / 2) c) (lw_b z)))))
           (1 / 10 ^ 17))"

fun lw_loop :: "nat \<Rightarrow> vec \<Rightarrow> vec \<Rightarrow> vec" where
  "lw_loop 0 x z = z"
| "lw_loop (Suc n) x z = lw_loop n x (lw_body x z)"

definition log_lambertw :: "vec \<Rightarrow> vec" where
  "log_lambertw x = lw_loop 5 x (init_lambertw x)"


subsection \<open>Exceptions, optional arguments and counted loops\<close>

text \<open>
  An exception ends the computation: \<open>err_bind\<close> runs the continuation on a value and
  passes an error on. A keyword argument with a default is an \<open>option\<close>: \<open>None\<close> is the
  call that leaves the argument out (for \<open>rho2\<close> also the call that passes Python's
  \<open>None\<close>). \<open>for_range n body\<close> is \<open>for _ in range(n): s = body(s)\<close>.
\<close>

definition err_bind :: "error + 'a \<Rightarrow> ('a \<Rightarrow> error + 'b) \<Rightarrow> error + 'b" where
  "err_bind m k = (case m of Inl e \<Rightarrow> Inl e | Inr x \<Rightarrow> k x)"

definition or_default :: "'a option \<Rightarrow> 'a \<Rightarrow> 'a" where
  "or_default v d = (case v of None \<Rightarrow> d | Some x \<Rightarrow> x)"

fun for_range :: "nat \<Rightarrow> ('s \<Rightarrow> error + 's) \<Rightarrow> 's \<Rightarrow> error + 's" where
  "for_range 0 body s = Inr s"
| "for_range (Suc n) body s = err_bind (body s) (for_range n body)"

subsection \<open>Broadcasting\<close>

text \<open>
  \<open>u * v\<close> on one-dimensional arrays of independent origin: NumPy pairs the entries
  when the lengths agree, stretches an array of length one, and raises \<open>ValueError\<close>
  otherwise.
\<close>

definition broadcast2 :: "(real \<Rightarrow> real \<Rightarrow> real) \<Rightarrow> vec \<Rightarrow> vec \<Rightarrow> error + vec" where
  "broadcast2 f u v =
     (if length u = length v then Inr (map2 f u v)
      else if length u = 1 then Inr (map (f (hd u)) v)
      else if length v = 1 then Inr (map (\<lambda>x. f x (hd v)) u)
      else Inl ValueError)"

text \<open>
  A two-dimensional array with its shape. \<open>col_of f\<close> is \<open>f[:, None]\<close> and
  \<open>row_of g\<close> is \<open>g[None, :]\<close>; \<open>mat_broadcast2\<close> is an elementwise operation with
  broadcasting on both axes.
\<close>

datatype mat = Mat (nrows: nat) (ncols: nat) (cell: "nat \<Rightarrow> nat \<Rightarrow> real")

definition col_of :: "vec \<Rightarrow> mat" where
  "col_of f = Mat (length f) 1 (\<lambda>i j. f ! i)"

definition row_of :: "vec \<Rightarrow> mat" where
  "row_of g = Mat 1 (length g) (\<lambda>i j. g ! j)"

definition broadcast_dim :: "nat \<Rightarrow> nat \<Rightarrow> nat option" where
  "broadcast_dim n k =
     (if n = k then Some n else if n = 1 then Some k else if k = 1 then Some n else None)"

definition mat_broadcast2 :: "(real \<Rightarrow> real \<Rightarrow> real) \<Rightarrow> mat \<Rightarrow> mat \<Rightarrow> error + mat" where
  "mat_broadcast2 f A B =
     (case (broadcast_dim (nrows A) (nrows B), broadcast_dim (ncols A) (ncols B)) of
        (Some r, Some c) \<Rightarrow>
          Inr (Mat r c (\<lambda>i j.
                 f (cell A (if nrows A = 1 then 0 else i) (if ncols A = 1 then 0 else j))
                   (cell B (if nrows B = 1 then 0 else i) (if ncols B = 1 then 0 else j))))
      | _ \<Rightarrow> Inl ValueError)"

definition mat_map :: "(real \<Rightarrow> real) \<Rightarrow> mat \<Rightarrow> mat" where
  "mat_map f A = Mat (nrows A) (ncols A) (\<lambda>i j. f (cell A i j))"

definition mat_sum :: "mat \<Rightarrow> real" where
  "mat_sum A =
     sum_list (map (\<lambda>i. sum_list (map (\<lambda>j. cell A i j) [0..<ncols A])) [0..<nrows A])"

subsection \<open>Properties of Berg entropy\<close>

text \<open>\<open>phis_ent\<close> is applied to the matrix \<open>C - f[:, None] - g[None, :]\<close> only.\<close>

definition phis_ent :: "mat \<Rightarrow> real \<Rightarrow> mat" where
  "phis_ent x s = mat_map (\<lambda>xij. - s * (exp (- xij / s) - 1)) x"

definition phis_berg :: "vec \<Rightarrow> real \<Rightarrow> vec" where
  "phis_berg x s = s_mul_v (- s) (vlog (s_sub_v 1 (vdiv_s x s)))"

definition dual_score_ent ::
  "vec \<Rightarrow> vec \<Rightarrow> vec \<Rightarrow> vec \<Rightarrow> mat \<Rightarrow> real \<Rightarrow> real \<Rightarrow> real option \<Rightarrow> error + real" where
  "dual_score_ent f g a b C eps rho rho2 =
     (let rho2 = or_default rho2 rho
      in err_bind (broadcast2 (*) a (phis_berg f rho)) (\<lambda>pa.
         err_bind (broadcast2 (*) b (phis_berg g rho2)) (\<lambda>pb.
         err_bind (mat_broadcast2 (*) (col_of a) (row_of b)) (\<lambda>ab.
         err_bind (mat_broadcast2 (-) C (col_of f)) (\<lambda>cf.
         err_bind (mat_broadcast2 (-) cf (row_of g)) (\<lambda>cfg.
         err_bind (mat_broadcast2 (*) ab (phis_ent cfg eps)) (\<lambda>pc.
           Inr (sum_list pa + sum_list pb + mat_sum pc))))))))"

definition aprox_berg :: "vec \<Rightarrow> real \<Rightarrow> real \<Rightarrow> vec" where
  "aprox_berg x eps rho =
     (let delta = s_sub_v (rho / eps + ln (rho / eps)) (vdiv_s x eps)
      in s_sub_v rho (s_mul_v eps (log_lambertw delta)))"

definition grad_phis_berg :: "vec \<Rightarrow> real \<Rightarrow> vec" where
  "grad_phis_berg x s = s_div_v 1 (s_sub_v 1 (vdiv_s x s))"

definition hess_phis_berg :: "vec \<Rightarrow> real \<Rightarrow> vec" where
  "hess_phis_berg x s = s_div_v 1 (s_mul_v s (vsquare (s_sub_v 1 (vdiv_s x s))))"

subsection \<open>Optimisation of translation invariance\<close>

definition grad_invariant ::
  "real \<Rightarrow> vec \<Rightarrow> vec \<Rightarrow> vec \<Rightarrow> vec \<Rightarrow> real \<Rightarrow> real \<Rightarrow> error + real" where
  "grad_invariant t f g a b rho rho2 =
     err_bind (broadcast2 (*) a (grad_phis_berg (vsub_s (vneg f) t) rho)) (\<lambda>p.
     err_bind (broadcast2 (*) b (grad_phis_berg (vadd_s (vneg g) t) rho2)) (\<lambda>q.
       Inr (sum_list p - sum_list q)))"

definition hess_invariant ::
  "real \<Rightarrow> vec \<Rightarrow> vec \<Rightarrow> vec \<Rightarrow> vec \<Rightarrow> real \<Rightarrow> real \<Rightarrow> error + real" where
  "hess_invariant t f g a b rho rho2 =
     err_bind (broadcast2 (*) a (hess_phis_berg (vsub_s (vneg f) t) rho)) (\<lambda>p.
     err_bind (broadcast2 (*) b (hess_phis_berg (vadd_s (vneg g) t) rho2)) (\<lambda>q.
       Inr (- sum_list p - sum_list q)))"

text \<open>The body of the Newton loop of \<open>rescale_berg\<close>, on the loop state \<open>t\<close>.\<close>

definition newton_body ::
  "vec \<Rightarrow> vec \<Rightarrow> vec \<Rightarrow> vec \<Rightarrow> real \<Rightarrow> real \<Rightarrow> real \<Rightarrow> error + real" where
  "newton_body f g a b rho rho2 t =
     err_bind (grad_invariant t f g a b rho rho2) (\<lambda>grad.
     err_bind (hess_invariant t f g a b rho rho2) (\<lambda>hess.
       Inr (t - grad / hess)))"

definition rescale_berg ::
  "vec \<Rightarrow> vec \<Rightarrow> vec \<Rightarrow> vec \<Rightarrow> real \<Rightarrow> real option \<Rightarrow> int option \<Rightarrow> real option
     \<Rightarrow> error + real" where
  "rescale_berg f g a b rho rho2 nits init =
     (let rho2 = or_default rho2 rho;
          nits = or_default nits 10;
          t = or_default init 0
      in for_range (nat nits) (newton_body f g a b rho rho2) t)"

subsection \<open>Sinkhorn loops\<close>

text \<open>
  \<open>sinkx\<close> and \<open>sinky\<close> are imported from \<open>fastuot.numpy_sinkhorn\<close>, a module whose
  source is not available; the loops take the two functions as parameters. They are
  functions of their four arguments and may raise.
\<close>

type_synonym sink = "mat \<Rightarrow> vec \<Rightarrow> vec \<Rightarrow> real \<Rightarrow> error + vec"

definition f_sinkhorn_loop ::
  "sink \<Rightarrow> sink \<Rightarrow> vec \<Rightarrow> vec \<Rightarrow> vec \<Rightarrow> mat \<Rightarrow> real \<Rightarrow> real \<Rightarrow> real option
     \<Rightarrow> error + (vec \<times> vec)" where
  "f_sinkhorn_loop sinkx sinky f a b C eps rho rho2 =
     (let rho2 = or_default rho2 rho
      in err_bind (sinkx C f a eps) (\<lambda>g.
         let g = vneg (aprox_berg (vneg g) eps rho2)
         in err_bind (sinky C g b eps) (\<lambda>f.
            let f = vneg (aprox_berg (vneg f) eps rho)
            in Inr (f, g))))"

text \<open>
  The expressions that \<open>h_sinkhorn_loop\<close> assigns to \<open>g\<close> (in the first loop and once
  more after it) and to \<open>f\<close> (in the second loop and once more after it).
\<close>

definition h_update_g :: "vec \<Rightarrow> real \<Rightarrow> real \<Rightarrow> real \<Rightarrow> vec" where
  "h_update_g gs eps rho2 t = vadd_s (vneg (aprox_berg (vneg (vsub_s gs t)) eps rho2)) t"

definition h_update_f :: "vec \<Rightarrow> real \<Rightarrow> real \<Rightarrow> real \<Rightarrow> vec" where
  "h_update_f fs eps rho t = vsub_s (vneg (aprox_berg (vneg (vadd_s fs t)) eps rho)) t"

text \<open>
  The state of the first loop is the pair of the variables it assigns, \<open>g\<close> and \<open>t\<close>;
  \<open>g\<close> is unbound before the loop (\<open>None\<close>). The state of the second loop is \<open>f\<close>
  and \<open>t\<close>, and \<open>f\<close> starts as the argument.
\<close>

definition h_sinkhorn_loop ::
  "sink \<Rightarrow> sink \<Rightarrow> vec \<Rightarrow> vec \<Rightarrow> vec \<Rightarrow> mat \<Rightarrow> real \<Rightarrow> real \<Rightarrow> real option \<Rightarrow> int option
     \<Rightarrow> error + (vec \<times> vec)" where
  "h_sinkhorn_loop sinkx sinky f a b C eps rho rho2 nits =
     (let rho2 = or_default rho2 rho;
          nits = or_default nits 20;
          t = 0
      in err_bind (sinkx C f a eps) (\<lambda>gs.
         err_bind (for_range (nat nits)
                     (\<lambda>(g, t).
                        let g = h_update_g gs eps rho2 t
                        in err_bind (rescale_berg f g a b rho (Some rho2) (Some nits) (Some t))
                             (\<lambda>t. Inr (Some g, t)))
                     (None, t)) (\<lambda>(g, t).
         let g = h_update_g gs eps rho2 t
         in err_bind (sinky C g b eps) (\<lambda>fs.
            err_bind (for_range (nat nits)
                        (\<lambda>(f, t).
                           let f = h_update_f fs eps rho t
                           in err_bind (rescale_berg f g a b rho (Some rho2) (Some nits) (Some t))
                                (\<lambda>t. Inr (f, t)))
                        (f, t)) (\<lambda>(f, t).
            let f = h_update_f fs eps rho t
            in err_bind (rescale_berg f g a b rho (Some rho2) None None) (\<lambda>t.
                 Inr (vadd_s f t, vsub_s g t)))))))"

definition g_sinkhorn_loop ::
  "sink \<Rightarrow> sink \<Rightarrow> vec \<Rightarrow> vec \<Rightarrow> real \<Rightarrow> vec \<Rightarrow> vec \<Rightarrow> mat \<Rightarrow> real \<Rightarrow> real \<Rightarrow> real option
     \<Rightarrow> error + (vec \<times> vec \<times> real)" where
  "g_sinkhorn_loop sinkx sinky f g t a b C eps rho rho2 =
     (let rho2 = or_default rho2 rho
      in err_bind (sinkx C f a eps) (\<lambda>g.
         let g = vneg (aprox_berg (vneg (vsub_s g t)) eps rho2)
         in err_bind (rescale_berg f g a b rho (Some rho2) None None) (\<lambda>t.
            err_bind (sinky C g b eps) (\<lambda>f.
            let f = vneg (aprox_berg (vneg (vadd_s f t)) eps rho)
            in err_bind (rescale_berg f g a b rho (Some rho2) None None) (\<lambda>t.
                 Inr (f, g, t))))))"


section \<open>The specification's reading of the operations\<close>

subsection \<open>The Lambert solver, entry by entry\<close>

text \<open>
  The seed of one entry: the three regimes and the replacement of a zero seed, with the
  Pade(3,2) approximant \<open>p(u) = u(3 + 6u + u\<^sup>2)/(3 + 9u + 5u\<^sup>2)\<close>.
\<close>

definition pade32 :: "real \<Rightarrow> real" where
  "pade32 u = u * (3 + 6 * u + u ^ 2) / (3 + 9 * u + 5 * u ^ 2)"

definition lw_seed :: "real \<Rightarrow> real" where
  "lw_seed x =
     (let z0 = (if x > 1 then x
                else if x < - 2 then exp x * (1 - exp x)
                else pade32 (exp x))
      in if z0 = 0 then 1 / 10 ^ 6 else z0)"

text \<open>
  The Halley update of one entry with the residual the code computes, in which the
  logarithm is taken of \<open>w + 1e-17\<close>.
\<close>

definition lw_residual :: "real \<Rightarrow> real \<Rightarrow> real" where
  "lw_residual x w = w * (ln (w + 1 / 10 ^ 17) + w - x) / (1 + w)"

definition lw_curvature :: "real \<Rightarrow> real" where
  "lw_curvature w = - 1 / (w * (1 + w))"

definition lw_halley :: "real \<Rightarrow> real \<Rightarrow> real" where
  "lw_halley x w =
     max (w - lw_residual x w / (1 - 1 / 2 * lw_residual x w * lw_curvature w)) (1 / 10 ^ 17)"

text \<open>
  The same with the residual \<open>a(w) = w(log(w) + w - x)/(1 + w)\<close> of the specification,
  and the solver that the specification describes.
\<close>

definition spec_residual :: "real \<Rightarrow> real \<Rightarrow> real" where
  "spec_residual x w = w * (ln w + w - x) / (1 + w)"

definition spec_halley :: "real \<Rightarrow> real \<Rightarrow> real" where
  "spec_halley x w =
     max (w - spec_residual x w / (1 - 1 / 2 * spec_residual x w * lw_curvature w))
         (1 / 10 ^ 17)"

definition spec_log_lambertw :: "vec \<Rightarrow> vec" where
  "spec_log_lambertw x = map (\<lambda>xi. (spec_halley xi ^^ 5) (lw_seed xi)) x"

text \<open>The solver on a single number: the entry of the result for a one-entry array.\<close>

definition lambertw_at :: "real \<Rightarrow> real" where
  "lambertw_at d = hd (log_lambertw [d])"

subsection \<open>The Newton update of the translation\<close>

text \<open>
  \<open>dphi s x = 1/(1 - x/s)\<close> and its derivative in \<open>x\<close>; \<open>grad_sum\<close> is
  \<open>\<Sum> a\<^sub>i dphi(-f\<^sub>i - t) - \<Sum> b\<^sub>j dphi(-g\<^sub>j + t)\<close> and \<open>hess_sum\<close> its derivative in \<open>t\<close>.
\<close>

definition dphi :: "real \<Rightarrow> real \<Rightarrow> real" where
  "dphi s x = 1 / (1 - x / s)"

definition d2phi :: "real \<Rightarrow> real \<Rightarrow> real" where
  "d2phi s x = 1 / (s * (1 - x / s) ^ 2)"

definition grad_sum :: "vec \<Rightarrow> vec \<Rightarrow> vec \<Rightarrow> vec \<Rightarrow> real \<Rightarrow> real \<Rightarrow> real \<Rightarrow> real" where
  "grad_sum f g a b rho rho2 t =
     sum_list (map2 (\<lambda>ai fi. ai * dphi rho (- fi - t)) a f)
     - sum_list (map2 (\<lambda>bj gj. bj * dphi rho2 (- gj + t)) b g)"

definition hess_sum :: "vec \<Rightarrow> vec \<Rightarrow> vec \<Rightarrow> vec \<Rightarrow> real \<Rightarrow> real \<Rightarrow> real \<Rightarrow> real" where
  "hess_sum f g a b rho rho2 t =
     - sum_list (map2 (\<lambda>ai fi. ai * d2phi rho (- fi - t)) a f)
     - sum_list (map2 (\<lambda>bj gj. bj * d2phi rho2 (- gj + t)) b g)"

definition newton_update :: "vec \<Rightarrow> vec \<Rightarrow> vec \<Rightarrow> vec \<Rightarrow> real \<Rightarrow> real \<Rightarrow> real \<Rightarrow> real" where
  "newton_update f g a b rho rho2 t =
     t - grad_sum f g a b rho rho2 t / hess_sum f g a b rho rho2 t"

section \<open>Verification\<close>

subsection \<open>Exceptions, defaults and loops\<close>

lemma err_bind_Inr [simp]: "err_bind (Inr x) k = k x"
  by (simp add: err_bind_def)

lemma err_bind_Inl [simp]: "err_bind (Inl e) k = Inl e"
  by (simp add: err_bind_def)

lemma or_default_simps [simp]: "or_default None d = d" "or_default (Some x) d = x"
  by (simp_all add: or_default_def)

lemma for_range_total:
  "(\<And>s. body s = Inr (step s)) \<Longrightarrow> for_range n body s = Inr ((step ^^ n) s)"
  by (induction n arbitrary: s) (simp_all add: funpow_swap1)

text \<open>
  A component of the loop state that every pass overwrites before reading it does not
  influence what follows the loop, as long as the continuation does not read it either.
\<close>

lemma for_range_dead_component:
  "err_bind (for_range n (\<lambda>(v, t). err_bind (B t) (\<lambda>t'. Inr (W t, t'))) (v0, t0))
     (\<lambda>(v, t). k t) =
   err_bind (for_range n B t0) k"
proof (induction n arbitrary: v0 t0)
  case 0
  then show ?case by simp
next
  case (Suc n)
  show ?case
  proof (cases "B t0")
    case (Inl e)
    then show ?thesis by simp
  next
    case (Inr t1)
    then show ?thesis using Suc [of "W t0" t1] by simp
  qed
qed

lemma funpow5: "(f ^^ 5) x = f (f (f (f (f x))))"
  by (simp add: eval_nat_numeral)

subsection \<open>The Lambert solver acts entry by entry\<close>

lemma mask_put_map:
  "length z = length x \<Longrightarrow>
   mask_put z (map P x) (map f (compress (map P x) x)) =
   map2 (\<lambda>zi xi. if P xi then f xi else zi) z x"
proof (induction x arbitrary: z)
  case Nil
  then show ?case by simp
next
  case (Cons a x)
  then obtain z1 zs where z: "z = z1 # zs" by (cases z) auto
  with Cons show ?case by auto
qed

lemma map2_map_left: "map2 f (map g xs) xs = map (\<lambda>x. f (g x) x) xs"
  by (induction xs) auto

lemma map2_map_right: "map2 f xs (map h xs) = map (\<lambda>x. f x (h x)) xs"
  by (induction xs) auto

lemma map2_replicate_left:
  "map2 f (replicate (length xs) c) xs = map (f c) xs"
  by (induction xs) auto

lemma pade_map: "pade u = map pade32 u"
  unfolding pade_def vdiv_def vmul_def vadd_def s_add_v_def s_mul_v_def vsquare_def pade32_def
  by (induction u) auto

lemma low_branch_map:
  "vmul (vexp c) (s_sub_v 1 (vexp c)) = map (\<lambda>xi. exp xi * (1 - exp xi)) c"
  unfolding vmul_def vexp_def s_sub_v_def by (induction c) auto

lemma init_lambertw_map: "init_lambertw x = map lw_seed x"
proof -
  let ?z1 = "map (\<lambda>xi. if xi > 1 then xi else 0) x"
  let ?z2 = "map (\<lambda>xi. if xi < - 2 then exp xi * (1 - exp xi) else if xi > 1 then xi else 0) x"
  let ?z3 = "map (\<lambda>xi. if xi \<le> 1 \<and> xi \<ge> - 2 then pade32 (exp xi)
                else if xi < - 2 then exp xi * (1 - exp xi) else if xi > 1 then xi else 0) x"
  have s1: "mask_put (zeros_like x) (map (\<lambda>xi. xi > 1) x) (compress (map (\<lambda>xi. xi > 1) x) x) = ?z1"
    using mask_put_map [of "zeros_like x" x "\<lambda>xi. xi > 1" "\<lambda>xi. xi"]
    by (simp add: zeros_like_def map2_replicate_left)
  have s2: "mask_put ?z1 (map (\<lambda>xi. xi < - 2) x)
              (vmul (vexp (compress (map (\<lambda>xi. xi < - 2) x) x))
                    (s_sub_v 1 (vexp (compress (map (\<lambda>xi. xi < - 2) x) x)))) = ?z2"
    using mask_put_map [of ?z1 x "\<lambda>xi. xi < - 2" "\<lambda>xi. exp xi * (1 - exp xi)"]
    by (simp add: low_branch_map map2_map_left)
  have s3: "mask_put ?z2 (map (\<lambda>xi. xi \<le> 1 \<and> xi \<ge> - 2) x)
              (pade (vexp (compress (map (\<lambda>xi. xi \<le> 1 \<and> xi \<ge> - 2) x) x))) = ?z3"
    using mask_put_map [of ?z2 x "\<lambda>xi. xi \<le> 1 \<and> xi \<ge> - 2" "\<lambda>xi. pade32 (exp xi)"]
    by (simp add: pade_map vexp_def map2_map_left comp_def)
  have s4: "mask_fill ?z3 (map (\<lambda>zi. zi = 0) ?z3) (1 / 10 ^ 6) = map lw_seed x"
    unfolding mask_fill_def lw_seed_def Let_def
    by (induction x) auto
  show ?thesis
    unfolding init_lambertw_def Let_def s1 s2 s3 s4 ..
qed

lemma lw_body_map:
  "length z = length x \<Longrightarrow> lw_body x z = map2 (\<lambda>xi zi. lw_halley xi zi) x z"
proof (induction x arbitrary: z)
  case Nil
  then show ?case
    by (simp add: lw_body_def lw_a_def lw_b_def vdiv_def vmul_def vsub_def vadd_def vlog_def
        vadd_s_def s_add_v_def s_div_v_def s_sub_v_def s_mul_v_def vmaximum_s_def)
next
  case (Cons a x)
  then obtain z1 zs where z: "z = z1 # zs" by (cases z) auto
  from Cons z have ih: "lw_body x zs = map2 lw_halley x zs" by simp
  have "lw_body (a # x) (z1 # zs) = lw_halley a z1 # lw_body x zs"
    by (simp only: lw_body_def lw_a_def lw_b_def vdiv_def vmul_def vsub_def vadd_def vlog_def
        vadd_s_def s_add_v_def s_div_v_def s_sub_v_def s_mul_v_def vmaximum_s_def Let_def
        lw_halley_def lw_residual_def lw_curvature_def list.map zip_Cons_Cons prod.case)
  then show ?case unfolding z by (simp add: ih)
qed

lemma lw_loop_map:
  "lw_loop n x (map f x) = map (\<lambda>xi. (lw_halley xi ^^ n) (f xi)) x"
proof (induction n arbitrary: f)
  case 0
  then show ?case by simp
next
  case (Suc n)
  have "lw_body x (map f x) = map (\<lambda>xi. lw_halley xi (f xi)) x"
    by (simp add: lw_body_map map2_map_right)
  then show ?case
    using Suc [of "\<lambda>xi. lw_halley xi (f xi)"] by (simp add: funpow_swap1)
qed

lemma log_lambertw_map:
  "log_lambertw x = map (\<lambda>xi. (lw_halley xi ^^ 5) (lw_seed xi)) x"
  by (simp add: log_lambertw_def init_lambertw_map lw_loop_map)

lemma length_log_lambertw: "length (log_lambertw x) = length x"
  by (simp add: log_lambertw_map)

lemma lambertw_at_eq: "lambertw_at d = (lw_halley d ^^ 5) (lw_seed d)"
  by (simp add: lambertw_at_def log_lambertw_map)

lemma log_lambertw_pointwise: "log_lambertw x = map lambertw_at x"
  by (simp add: log_lambertw_map lambertw_at_eq)

lemma lw_halley_floor: "1 / 10 ^ 17 \<le> lw_halley x w"
  by (simp add: lw_halley_def)

lemma lambertw_at_floor: "1 / 10 ^ 17 \<le> lambertw_at d"
  unfolding lambertw_at_eq funpow5 by (rule lw_halley_floor)

text \<open>
  Since no entry of the result is below the floor, \<open>w + log w\<close> cannot follow \<open>x\<close>
  below \<open>log(1e-17)\<close>.
\<close>

lemma lambertw_at_log_form_gap:
  assumes "x \<le> ln (1 / 10 ^ 17) - 1"
  shows "1 \<le> lambertw_at x + ln (lambertw_at x) - x"
proof -
  have w: "1 / 10 ^ 17 \<le> lambertw_at x" by (rule lambertw_at_floor)
  then have pos: "0 < lambertw_at x" by (rule less_le_trans [rotated]) simp
  have "ln (1 / 10 ^ 17) \<le> ln (lambertw_at x)"
    using w pos by (subst ln_le_cancel_iff) simp_all
  then show ?thesis using assms pos by linarith
qed

subsection \<open>Bounds on one Halley update\<close>

lemma ln_ratio_upper:
  fixes u w :: real
  assumes "0 < u" "0 < w"
  shows "ln w - ln u \<le> w / u - 1"
proof -
  have "ln (w / u) \<le> w / u - 1"
    using assms by (intro ln_le_minus_one) simp
  then show ?thesis using assms by (simp add: ln_divide_pos)
qed

lemma ln_ratio_lower:
  fixes u w :: real
  assumes "0 < u" "0 < w"
  shows "1 - u / w \<le> ln w - ln u"
  using ln_ratio_upper [OF assms(2) assms(1)] by simp

lemma halley_denominator_aux:
  fixes w p c :: real
  assumes "w \<noteq> 0" "c \<noteq> 0"
  shows "1 - 1 / 2 * (w * p / c) * (- 1 / (w * c)) = 1 + p / (2 * c ^ 2)"
  using assms by (simp add: field_simps power2_eq_square)

lemma halley_denominator:
  fixes w p :: real
  assumes "0 < w"
  shows "1 - 1 / 2 * (w * p / (1 + w)) * lw_curvature w = 1 + p / (2 * (1 + w) ^ 2)"
  unfolding lw_curvature_def
  using assms by (intro halley_denominator_aux) simp_all

lemma spec_halley_band:
  fixes u w :: real
  assumes u: "0 < u" "u \<le> 1 / 100" and m: "1 / 10 ^ 17 \<le> 11 / 10 * u"
    and w: "9 / 10 * u \<le> w" "w \<le> 11 / 10 * u"
  shows "9 / 10 * u \<le> spec_halley (ln u) w \<and> spec_halley (ln u) w \<le> 11 / 10 * u"
proof -
  have wpos: "0 < w" using u w by linarith
  have wsmall: "w \<le> 11 / 1000" using u w by linarith
  define p where "p = ln w + w - ln u"
  define A where "A = w * p / (1 + w)"
  define D where "D = 1 + p / (2 * (1 + w) ^ 2)"
  define v where "v = w - A / D"
  have sq: "1 \<le> (1 + w) ^ 2" using wpos by (simp add: power2_eq_square mult_ge1_I)
  have p_up: "p \<le> w / u - 1 + w"
    using ln_ratio_upper [OF u(1) wpos] by (simp add: p_def)
  have p_lo: "1 - u / w \<le> p"
    using ln_ratio_lower [OF u(1) wpos] wpos by (simp add: p_def)
  have uw: "u / w \<le> 10 / 9" using w wpos u by (simp add: field_simps)
  have wu: "w / u \<le> 11 / 10" "9 / 10 \<le> w / u" using w u by (simp_all add: field_simps)
  have step: "spec_halley (ln u) w = max v (1 / 10 ^ 17)"
    unfolding spec_halley_def spec_residual_def v_def A_def D_def p_def
    by (simp only: halley_denominator [OF wpos])
  have band: "9 / 10 * u \<le> v \<and> v \<le> 11 / 10 * u"
  proof (cases "0 \<le> p")
    case True
    have A0: "0 \<le> A" using True wpos by (simp add: A_def)
    have "A \<le> w * p / 1"
      unfolding A_def using True wpos by (intro divide_left_mono) (simp_all add: mult_nonneg_nonneg)
    then have A1: "A \<le> w * p" by simp
    have D1: "1 \<le> D" using True by (simp add: D_def)
    have q0: "0 \<le> A / D" using A0 D1 by simp
    have "A / D \<le> A / 1" using A0 D1 by (intro divide_left_mono) simp_all
    then have q1: "A / D \<le> w * p" using A1 by simp
    have "w * p \<le> w * (w / u - 1 + w)" using p_up wpos by (intro mult_left_mono) simp_all
    then have lo: "w * (2 - w / u - w) \<le> v" using q1 by (simp add: v_def algebra_simps)
    have "9 / 10 * u \<le> w * (2 - w / u - w)"
    proof -
      define r where "r = w / u"
      have r: "9 / 10 \<le> r" "r \<le> 11 / 10" using wu by (simp_all add: r_def)
      have wr: "w = r * u" using u by (simp add: r_def)
      have "(1 - r) * (1 - r) \<le> (1 / 10) * (1 / 10)"
      proof (cases "r \<le> 1")
        case True
        then show ?thesis using r by (intro mult_mono) simp_all
      next
        case False
        then have "(r - 1) * (r - 1) \<le> (1 / 10) * (1 / 10)" using r by (intro mult_mono) simp_all
        then show ?thesis by (simp add: algebra_simps)
      qed
      then have a: "99 / 100 \<le> r * (2 - r)" by (simp add: algebra_simps)
      have "r * w \<le> 11 / 10 * (11 / 1000)" using r wsmall wpos by (intro mult_mono) simp_all
      then have "9 / 10 \<le> r * (2 - r - w)" using a by (simp add: algebra_simps)
      then have "9 / 10 * u \<le> r * (2 - r - w) * u" using u by (intro mult_right_mono) simp_all
      moreover have "w * (2 - w / u - w) = r * (2 - r - w) * u"
        using u(1) by (simp add: r_def)
      ultimately show ?thesis by simp
    qed
    moreover have "v \<le> w" using q0 by (simp add: v_def)
    ultimately show ?thesis using lo w by linarith
  next
    case False
    then have pneg: "p < 0" by simp
    have pge: "- (1 / 9) \<le> p" using p_lo uw by linarith
    have "w * p \<le> 0" using pneg wpos by (intro mult_nonneg_nonpos) simp_all
    then have A0: "A \<le> 0" using wpos unfolding A_def by (intro divide_nonpos_pos) simp_all
    have wp: "0 \<le> w * (- p)" using pneg wpos by (intro mult_nonneg_nonneg) simp_all
    have "w * (- p) / (1 + w) \<le> w * (- p) / 1"
      using wp wpos by (intro divide_left_mono) simp_all
    then have A1: "- A \<le> w * (- p)" by (simp add: A_def)
    have "- p / (2 * (1 + w) ^ 2) \<le> - p / (2 * 1)"
      using pneg sq wpos by (intro divide_left_mono) simp_all
    then have D1: "3 / 4 \<le> D" using pge by (simp add: D_def)
    have Dle: "D \<le> 1" using pneg wpos by (simp add: D_def divide_nonpos_pos)
    have Dpos: "0 < D" using D1 by linarith
    have q0: "A / D \<le> 0" using A0 Dpos by (simp add: divide_nonpos_pos)
    have "- A / D \<le> - A / (3 / 4)" using A0 D1 by (intro divide_left_mono) simp_all
    then have q1: "- A / D \<le> 4 / 3 * (w * (- p))" using A1 by simp
    have "- p \<le> u / w - 1" using p_lo by linarith
    then have "w * (- p) \<le> w * (u / w - 1)" using wpos by (intro mult_left_mono) simp_all
    then have "w * (- p) \<le> u - w" using wpos by (simp add: algebra_simps)
    then have "v \<le> w + 4 / 3 * (u - w)" using q1 by (simp add: v_def)
    then have "v \<le> 11 / 10 * u" using w u by argo
    moreover have "w \<le> v" using q0 by (simp add: v_def)
    ultimately show ?thesis using w by linarith
  qed
  show ?thesis unfolding step using band m by auto
qed


lemma spec_halley_band_iter:
  fixes u w :: real
  assumes u: "0 < u" "u \<le> 1 / 100" and m: "1 / 10 ^ 17 \<le> 11 / 10 * u"
    and w: "9 / 10 * u \<le> w" "w \<le> 11 / 10 * u"
  shows "9 / 10 * u \<le> (spec_halley (ln u) ^^ n) w \<and> (spec_halley (ln u) ^^ n) w \<le> 11 / 10 * u"
proof (induction n)
  case 0
  then show ?case using w by simp
next
  case (Suc n)
  then show ?case using spec_halley_band [OF u m] by simp
qed

lemma lw_halley_clipped:
  fixes x w :: real
  assumes w: "0 < w" and r: "0 \<le> ln (w + 1 / 10 ^ 17) + w - x"
    and c: "w - 1 / 10 ^ 17 \<le> (w * (ln (w + 1 / 10 ^ 17) + w - x) / (1 + w))
                               / (1 + (ln (w + 1 / 10 ^ 17) + w - x) / (2 * (1 + w) ^ 2))"
  shows "lw_halley x w = 1 / 10 ^ 17"
proof -
  have "lw_halley x w = max (w - (w * (ln (w + 1 / 10 ^ 17) + w - x) / (1 + w))
                               / (1 + (ln (w + 1 / 10 ^ 17) + w - x) / (2 * (1 + w) ^ 2)))
                            (1 / 10 ^ 17)"
    unfolding lw_halley_def lw_residual_def
    by (simp only: halley_denominator [OF w])
  then show ?thesis using c by (simp add: max_def)
qed

lemma lw_halley_stuck:
  fixes x :: real
  assumes "x \<le> ln (2 / 10 ^ 17)"
  shows "lw_halley x (1 / 10 ^ 17) = 1 / 10 ^ 17"
proof (rule lw_halley_clipped)
  let ?m = "1 / 10 ^ 17 :: real"
  let ?p = "ln (?m + ?m) + ?m - x"
  show "0 < ?m" by simp
  have "?m + ?m = 2 / 10 ^ 17" by simp
  then show p0: "0 \<le> ?p" using assms by simp
  have "0 \<le> ?m * ?p / (1 + ?m)" using p0 by simp
  moreover have "0 < 1 + ?p / (2 * (1 + ?m) ^ 2)" using p0 by (simp add: add_pos_nonneg)
  ultimately have "0 \<le> (?m * ?p / (1 + ?m)) / (1 + ?p / (2 * (1 + ?m) ^ 2))"
    by (rule divide_nonneg_pos)
  then show "?m - ?m \<le> (?m * ?p / (1 + ?m)) / (1 + ?p / (2 * (1 + ?m) ^ 2))" by simp
qed

lemma lw_halley_first_clip:
  fixes u :: real
  assumes u: "u = 1 / (8 * 10 ^ 16)"
  shows "lw_halley (ln u) (u * (1 - u)) = 1 / 10 ^ 17"
proof (rule lw_halley_clipped)
  let ?m = "1 / 10 ^ 17 :: real"
  let ?w = "u * (1 - u)"
  let ?p = "ln (?w + ?m) + ?w - ln u"
  have upos: "0 < u" "u < 1 / 100" by (simp_all add: u)
  have m: "?m = 4 / 5 * u" by (simp add: u)
  show wpos: "0 < ?w" using upos by simp
  have wle: "?w \<le> u" using upos by (simp add: algebra_simps)
  have sum: "?w + ?m = u * (9 / 5 - u)" by (simp add: u)
  have ratio: "(?w + ?m) / u = 9 / 5 - u" unfolding sum using upos by simp
  have sumpos: "0 < ?w + ?m" using wpos by (simp add: add_pos_pos)
  have "1 - u / (?w + ?m) \<le> ln (?w + ?m) - ln u"
    by (rule ln_ratio_lower [OF upos(1) sumpos])
  moreover have "u / (?w + ?m) \<le> 4 / 7"
  proof -
    have "u / (u * (9 / 5 - u)) = 1 / (9 / 5 - u)" using upos by simp
    moreover have "1 / (9 / 5 - u) \<le> 1 / (7 / 4)"
      using upos by (intro divide_left_mono) simp_all
    ultimately show ?thesis unfolding sum by simp
  qed
  ultimately have plo: "3 / 7 \<le> ?p" using wpos by linarith
  have "ln (?w + ?m) - ln u \<le> (?w + ?m) / u - 1"
    by (rule ln_ratio_upper [OF upos(1) sumpos])
  then have "ln (?w + ?m) - ln u \<le> 9 / 5 - u - 1" by (simp only: ratio)
  then have phi: "?p \<le> 1" using upos wle by linarith
  show "0 \<le> ?p" using plo by simp
  have A: "3 / 8 * ?w \<le> ?w * ?p / (1 + ?w)"
  proof -
    have "?w * (3 / 7) \<le> ?w * ?p" using plo wpos by (intro mult_left_mono) simp_all
    moreover have "1 + ?w \<le> 8 / 7" using wle upos by linarith
    ultimately have "?w * (3 / 7) / (8 / 7) \<le> ?w * ?p / (1 + ?w)"
      using wpos by (intro frac_le) simp_all
    then show ?thesis by simp
  qed
  have sq: "1 \<le> (1 + ?w) ^ 2" using wpos by (simp add: power2_eq_square mult_ge1_I)
  have "?p / (2 * (1 + ?w) ^ 2) \<le> ?p / (2 * 1)"
    using plo sq wpos by (intro divide_left_mono) simp_all
  then have D: "1 + ?p / (2 * (1 + ?w) ^ 2) \<le> 3 / 2" using phi by simp
  have Dpos: "0 < 1 + ?p / (2 * (1 + ?w) ^ 2)" using plo wpos by (simp add: add_pos_nonneg)
  have A0: "0 \<le> ?w * ?p / (1 + ?w)" using A wpos by linarith
  have "3 / 8 * ?w / (3 / 2) \<le> (?w * ?p / (1 + ?w)) / (1 + ?p / (2 * (1 + ?w) ^ 2))"
    by (rule frac_le [OF A0 A Dpos D])
  then have "1 / 4 * ?w \<le> (?w * ?p / (1 + ?w)) / (1 + ?p / (2 * (1 + ?w) ^ 2))" by simp
  moreover have "?w - ?m \<le> 1 / 4 * ?w" using wle upos m by linarith
  ultimately show "?w - ?m \<le> (?w * ?p / (1 + ?w)) / (1 + ?p / (2 * (1 + ?w) ^ 2))"
    by linarith
qed

lemma exp_minus_two_lower: "1 / 16 \<le> exp (- 2 :: real)"
proof -
  define e :: real where "e = exp (- (1 / 2))"
  have h: "1 / 2 \<le> e"
    using exp_ge_add_one_self [of "- (1 / 2) :: real"] by (simp add: e_def)
  have "(1 / 2) * (1 / 2) \<le> e * e"
    using h by (intro mult_mono) simp_all
  then have h2: "1 / 4 \<le> e * e" by simp
  have "(1 / 4) * (1 / 4) \<le> (e * e) * (e * e)"
    using h2 by (intro mult_mono) simp_all
  then have h4: "1 / 16 \<le> (e * e) * (e * e)" by simp
  have "exp (- 2 :: real) = exp (- (1 / 2) + - (1 / 2) + (- (1 / 2) + - (1 / 2)))" by simp
  also have "\<dots> = (e * e) * (e * e)" unfolding exp_add e_def ..
  finally show ?thesis using h4 by simp
qed

lemma ln_small_lt_minus_two:
  fixes u :: real
  assumes "0 < u" "u < 1 / 16"
  shows "ln u < - 2"
proof -
  have "u < exp (- 2)" using assms exp_minus_two_lower by linarith
  then have "ln u < ln (exp (- 2 :: real))" using assms by (subst ln_less_cancel_iff) simp_all
  then show ?thesis by simp
qed

lemma lw_seed_small:
  fixes u :: real
  assumes "0 < u" "u < 1 / 16"
  shows "lw_seed (ln u) = u * (1 - u)"
proof -
  have "ln u < - 2" by (rule ln_small_lt_minus_two [OF assms])
  moreover have "u * (1 - u) \<noteq> 0" using assms by simp
  ultimately show ?thesis using assms by (simp add: lw_seed_def)
qed
lemma log_lambertw_on_floor:
  "(lw_halley (ln (1 / (8 * 10 ^ 16))) ^^ 5) (lw_seed (ln (1 / (8 * 10 ^ 16)))) = 1 / 10 ^ 17"
proof -
  define u :: real where "u = 1 / (8 * 10 ^ 16)"
  have upos: "0 < u" "u < 1 / 16" by (simp_all add: u_def)
  have seed: "lw_seed (ln u) = u * (1 - u)" by (rule lw_seed_small [OF upos])
  have first: "lw_halley (ln u) (u * (1 - u)) = 1 / 10 ^ 17"
    by (rule lw_halley_first_clip [OF u_def])
  have "ln u \<le> ln (2 / 10 ^ 17)" using upos by (subst ln_le_cancel_iff) (simp_all add: u_def)
  then have stuck: "lw_halley (ln u) (1 / 10 ^ 17) = 1 / 10 ^ 17" by (rule lw_halley_stuck)
  have "(lw_halley (ln u) ^^ 5) (lw_seed (ln u)) = 1 / 10 ^ 17"
    by (simp only: funpow5 seed first stuck)
  then show ?thesis unfolding u_def .
qed

lemma spec_halley_above_floor:
  "9 / 8 * (1 / 10 ^ 17)
     \<le> (spec_halley (ln (1 / (8 * 10 ^ 16))) ^^ 5) (lw_seed (ln (1 / (8 * 10 ^ 16))))"
proof -
  define u :: real where "u = 1 / (8 * 10 ^ 16)"
  have upos: "0 < u" "u < 1 / 16" by (simp_all add: u_def)
  have seed: "lw_seed (ln u) = u * (1 - u)" by (rule lw_seed_small [OF upos])
  have uu: "u * u \<le> u * (1 / 10)" using upos by (intro mult_left_mono) simp_all
  have expand: "u * (1 - u) = u - u * u" by (simp add: algebra_simps)
  have w: "9 / 10 * u \<le> u * (1 - u)" "u * (1 - u) \<le> 11 / 10 * u"
    unfolding expand using upos uu zero_le_square [of u] by linarith+
  have "9 / 10 * u \<le> (spec_halley (ln u) ^^ 5) (lw_seed (ln u))"
    unfolding seed using spec_halley_band_iter [OF _ _ _ w, of 5] by (simp add: u_def)
  then show ?thesis by (simp add: u_def)
qed

lemma residual_differs:
  fixes x w :: real
  assumes "0 < w"
  shows "lw_residual x w \<noteq> spec_residual x w"
proof
  assume "lw_residual x w = spec_residual x w"
  then have "w * (ln (w + 1 / 10 ^ 17) + w - x) = w * (ln w + w - x)"
    using assms by (simp add: lw_residual_def spec_residual_def)
  then have "ln (w + 1 / 10 ^ 17) = ln w" using assms by simp
  moreover have "0 < w + 1 / 10 ^ 17" using assms by (simp add: add_pos_pos)
  ultimately have "w + 1 / 10 ^ 17 = w" using assms by (simp only: ln_inj_iff)
  then show False by simp
qed

subsection \<open>Sums over arrays of equal length\<close>

lemma broadcast2_same_length:
  "length u = length v \<Longrightarrow> broadcast2 f u v = Inr (map2 f u v)"
  by (simp add: broadcast2_def)

lemma grad_invariant_sum:
  assumes "length a = length f" "length b = length g"
  shows "grad_invariant t f g a b rho rho2 = Inr (grad_sum f g a b rho rho2 t)"
  using assms
  by (simp add: grad_invariant_def grad_sum_def grad_phis_berg_def broadcast2_same_length
      vsub_s_def vadd_s_def vneg_def s_div_v_def s_sub_v_def vdiv_s_def dphi_def
      zip_map2 comp_def case_prod_unfold)

lemma hess_invariant_sum:
  assumes "length a = length f" "length b = length g"
  shows "hess_invariant t f g a b rho rho2 = Inr (hess_sum f g a b rho rho2 t)"
  using assms
  by (simp add: hess_invariant_def hess_sum_def hess_phis_berg_def broadcast2_same_length
      vsub_s_def vadd_s_def vneg_def s_div_v_def s_sub_v_def vdiv_s_def d2phi_def
      s_mul_v_def vsquare_def zip_map2 comp_def case_prod_unfold)

lemma newton_body_update:
  assumes "length a = length f" "length b = length g"
  shows "newton_body f g a b rho rho2 t = Inr (newton_update f g a b rho rho2 t)"
  by (simp add: newton_body_def newton_update_def grad_invariant_sum [OF assms]
      hess_invariant_sum [OF assms])

subsection \<open>The Hessian sum is the derivative of the gradient sum\<close>

text \<open>
  \<open>d2phi\<close> is the derivative of \<open>dphi\<close>, and \<open>hess_sum\<close> is the derivative in \<open>t\<close> of
  \<open>grad_sum\<close>, wherever no denominator vanishes.
\<close>

lemma dphi_has_derivative:
  assumes "s \<noteq> 0" "1 - x / s \<noteq> 0"
  shows "(dphi s has_real_derivative d2phi s x) (at x)"
proof -
  define c where "c = 1 - x / s"
  have c: "c \<noteq> 0" using assms(2) unfolding c_def .
  have "((\<lambda>y. 1 - y / s) has_real_derivative - (1 / s)) (at x)"
    using assms(1) by (auto intro!: derivative_eq_intros)
  then have "((\<lambda>y. inverse (1 - y / s)) has_real_derivative
               - (inverse (1 - x / s) * - (1 / s) * inverse (1 - x / s))) (at x)"
    using assms(2) by (rule DERIV_inverse')
  moreover have "- (inverse c * - (1 / s) * inverse c) = 1 / (s * c ^ 2)"
    using assms(1) c by (simp add: field_simps power2_eq_square)
  moreover have "(\<lambda>y. inverse (1 - y / s)) = dphi s"
    by (rule ext) (simp add: dphi_def inverse_eq_divide)
  ultimately show ?thesis by (simp add: d2phi_def c_def)
qed

lemma weighted_sum_has_derivative:
  fixes F F' :: "real \<Rightarrow> real \<Rightarrow> real"
  assumes "\<And>y. y \<in> set v \<Longrightarrow> ((\<lambda>t. F y t) has_real_derivative F' y t) (at t)"
  shows "((\<lambda>t. sum_list (map2 (\<lambda>c y. c * F y t) u v))
            has_real_derivative sum_list (map2 (\<lambda>c y. c * F' y t) u v)) (at t)"
  using assms
proof (induction u arbitrary: v)
  case Nil
  then show ?case by simp
next
  case (Cons c u)
  show ?case
  proof (cases v)
    case Nil
    then show ?thesis by simp
  next
    case (Cons y ys)
    have h: "((\<lambda>t. F y t) has_real_derivative F' y t) (at t)"
      using Cons.prems Cons by simp
    have ih: "((\<lambda>t. sum_list (map2 (\<lambda>c y. c * F y t) u ys))
            has_real_derivative sum_list (map2 (\<lambda>c y. c * F' y t) u ys)) (at t)"
      using Cons.IH [of ys] Cons.prems Cons by simp
    show ?thesis unfolding Cons
      using DERIV_add [OF DERIV_cmult [OF h, of c] ih] by simp
  qed
qed

lemma hess_sum_is_derivative:
  assumes "rho \<noteq> 0" "rho2 \<noteq> 0"
    and "\<And>y. y \<in> set f \<Longrightarrow> 1 - (- y - t) / rho \<noteq> 0"
    and "\<And>y. y \<in> set g \<Longrightarrow> 1 - (- y + t) / rho2 \<noteq> 0"
  shows "((\<lambda>t. grad_sum f g a b rho rho2 t)
            has_real_derivative hess_sum f g a b rho rho2 t) (at t)"
proof -
  have df: "((\<lambda>t. dphi rho (- y - t)) has_real_derivative - d2phi rho (- y - t)) (at t)"
    if "y \<in> set f" for y
  proof -
    have inner: "((\<lambda>t. - y - t) has_real_derivative - 1) (at t)"
      by (auto intro!: derivative_eq_intros)
    show ?thesis
      using DERIV_chain2 [OF dphi_has_derivative [OF assms(1) assms(3) [OF that]] inner]
      by simp
  qed
  have dg: "((\<lambda>t. dphi rho2 (- y + t)) has_real_derivative d2phi rho2 (- y + t)) (at t)"
    if "y \<in> set g" for y
  proof -
    have inner: "((\<lambda>t. - y + t) has_real_derivative 1) (at t)"
      by (auto intro!: derivative_eq_intros)
    show ?thesis
      using DERIV_chain2 [OF dphi_has_derivative [OF assms(2) assms(4) [OF that]] inner]
      by simp
  qed
  have a: "((\<lambda>t. sum_list (map2 (\<lambda>c y. c * dphi rho (- y - t)) a f))
            has_real_derivative sum_list (map2 (\<lambda>c y. c * - d2phi rho (- y - t)) a f)) (at t)"
    by (rule weighted_sum_has_derivative [where F = "\<lambda>y t. dphi rho (- y - t)"
          and F' = "\<lambda>y t. - d2phi rho (- y - t)"]) (rule df)
  have b: "((\<lambda>t. sum_list (map2 (\<lambda>c y. c * dphi rho2 (- y + t)) b g))
            has_real_derivative sum_list (map2 (\<lambda>c y. c * d2phi rho2 (- y + t)) b g)) (at t)"
    by (rule weighted_sum_has_derivative [where F = "\<lambda>y t. dphi rho2 (- y + t)"
          and F' = "\<lambda>y t. d2phi rho2 (- y + t)"]) (rule dg)
  have neg: "sum_list (map2 (\<lambda>c y. c * - d2phi rho (- y - t)) a f)
             = - sum_list (map2 (\<lambda>c y. c * d2phi rho (- y - t)) a f)"
    by (induction a arbitrary: f) (auto split: list.splits simp: zip_Cons1)
  show ?thesis
    unfolding grad_sum_def hess_sum_def
    using DERIV_diff [OF a b] by (simp only: neg)
qed

section \<open>The claims\<close>

subsection \<open>C1: the Lambert solver\<close>

text \<open>
  The code does not do what C1 says at the input \<open>x = log(1.25e-17)\<close>. The seed is
  \<open>e\<^sup>x(1 - e\<^sup>x)\<close>, just below \<open>1.25e-17\<close>. With the residual of the code, whose logarithm
  is taken of \<open>w + 1e-17\<close>, the first update falls below the floor and every later update
  stays on it: the result is exactly \<open>1e-17\<close>. With the residual \<open>w(log(w) + w - x)/(1 + w)\<close>
  that C1 states, all five updates stay within a tenth of \<open>1.25e-17\<close>, above the floor.
\<close>

theorem log_lambertw_residual_counterexample:
  "log_lambertw [ln (1 / (8 * 10 ^ 16))] = [1 / 10 ^ 17] \<and>
   spec_log_lambertw [ln (1 / (8 * 10 ^ 16))] \<noteq> [1 / 10 ^ 17]"
proof -
  have "9 / 8 * (1 / 10 ^ 17) \<le> hd (spec_log_lambertw [ln (1 / (8 * 10 ^ 16))])"
    using spec_halley_above_floor by (simp add: spec_log_lambertw_def)
  then have "hd (spec_log_lambertw [ln (1 / (8 * 10 ^ 16))]) \<noteq> 1 / 10 ^ 17" by simp
  then have "spec_log_lambertw [ln (1 / (8 * 10 ^ 16))] \<noteq> [1 / 10 ^ 17]" by auto
  moreover have "log_lambertw [ln (1 / (8 * 10 ^ 16))] = [1 / 10 ^ 17]"
    using log_lambertw_on_floor by (simp add: log_lambertw_map)
  ultimately show ?thesis by simp
qed

text \<open>
  C1, amended: for every array \<open>x\<close>, \<open>log_lambertw x\<close> is computed entry by entry from
  the piecewise seed (\<open>x\<close> where \<open>x > 1\<close>; \<open>e\<^sup>x(1 - e\<^sup>x)\<close> where \<open>x < -2\<close>; the
  Pade(3,2) approximant at \<open>e\<^sup>x\<close> where \<open>-2 \<le> x \<le> 1\<close>; a zero seed replaced by
  \<open>1e-6\<close>) by exactly five Halley updates \<open>w \<leftarrow> max(w - a/(1 - 0.5 a b), 1e-17)\<close> with no
  convergence check, where the residual is \<open>a(w) = w(log(w + 1e-17) + w - x)/(1 + w)\<close>
  and the curvature is \<open>b(w) = -1/(w(1 + w))\<close>; every entry of the result is at least
  \<open>1e-17\<close>.
\<close>

theorem log_lambertw_halley:
  "log_lambertw x = map (\<lambda>xi. (lw_halley xi ^^ 5) (lw_seed xi)) x \<and>
   (\<forall>w \<in> set (log_lambertw x). 1 / 10 ^ 17 \<le> w)"
proof -
  have "\<forall>w \<in> set (log_lambertw x). 1 / 10 ^ 17 \<le> w"
    unfolding log_lambertw_pointwise using lambertw_at_floor by auto
  then show ?thesis using log_lambertw_map by simp
qed

theorem log_lambertw_halley_witness:
  "log_lambertw [2] = [(lw_halley 2 ^^ 5) 2] \<and> 1 / 10 ^ 17 \<le> hd (log_lambertw [2])"
proof -
  have seed: "lw_seed 2 = 2" by (simp add: lw_seed_def)
  from log_lambertw_halley [of "[2]"]
  have a: "log_lambertw [2] = [(lw_halley 2 ^^ 5) 2]"
    and b: "\<forall>w \<in> set (log_lambertw [2]). 1 / 10 ^ 17 \<le> w"
    by (simp_all add: seed)
  from a have "hd (log_lambertw [2]) \<in> set (log_lambertw [2])" by simp
  with b have "1 / 10 ^ 17 \<le> hd (log_lambertw [2])" by blast
  with a show ?thesis by simp
qed

subsection \<open>C2: the Berg proximal operator\<close>

text \<open>
  C2: for positive \<open>eps\<close> and \<open>rho\<close> and every array \<open>x\<close>, \<open>aprox_berg x eps rho\<close> is
  \<open>rho - eps * W(rho/eps + log(rho/eps) - x/eps)\<close> with \<open>W\<close> the evaluation by
  \<open>log_lambertw\<close>, entry by entry: the result has the length of \<open>x\<close>, and its entry
  \<open>i\<close> is what the operator returns for the one-entry array holding \<open>x\<^sub>i\<close>.
\<close>

theorem aprox_berg_elementwise:
  assumes "0 < eps" "0 < rho"
  shows "aprox_berg x eps rho
           = map (\<lambda>xi. rho - eps * lambertw_at (rho / eps + ln (rho / eps) - xi / eps)) x \<and>
         length (aprox_berg x eps rho) = length x \<and>
         (\<forall>i<length x. aprox_berg x eps rho ! i = hd (aprox_berg [x ! i] eps rho))"
proof -
  have eq: "aprox_berg y eps rho
              = map (\<lambda>xi. rho - eps * lambertw_at (rho / eps + ln (rho / eps) - xi / eps)) y"
    for y
    by (simp add: aprox_berg_def Let_def log_lambertw_pointwise s_sub_v_def s_mul_v_def
        vdiv_s_def comp_def)
  show ?thesis by (simp add: eq)
qed

theorem aprox_berg_elementwise_witness:
  "(0::real) < 1 \<and>
   aprox_berg [0, 3] 1 1 = [1 - lambertw_at 1, 1 - lambertw_at (- 2)] \<and>
   aprox_berg [0, 3] 1 1 ! 1 = hd (aprox_berg [3] 1 1)"
proof -
  have p: "(0::real) < 1" by simp
  note t = aprox_berg_elementwise [OF p p, of "[0, 3]"]
  from t have a: "aprox_berg [0, 3] 1 1 = [1 - lambertw_at 1, 1 - lambertw_at (- 2)]"
    by simp
  from t have b: "\<forall>i<length [0::real, 3].
                    aprox_berg [0, 3] 1 1 ! i = hd (aprox_berg [[0, 3] ! i] 1 1)"
    by blast
  have "(1::nat) < length [0::real, 3]" by simp
  with b have "aprox_berg [0, 3] 1 1 ! 1 = hd (aprox_berg [[0, 3] ! 1] 1 1)" by blast
  then have c: "aprox_berg [0, 3] 1 1 ! 1 = hd (aprox_berg [3] 1 1)" by simp
  from p a c show ?thesis by blast
qed

subsection \<open>C3: the Newton iteration on the translation\<close>

text \<open>
  C3: on weights and potentials of matching lengths, \<open>rescale_berg\<close> returns the
  result of exactly \<open>nits\<close> (10 when left out) updates \<open>t \<leftarrow> t - grad/hess\<close> from \<open>init\<close>
  (0 when left out), where \<open>grad = \<Sum> a dphi(-f - t) - \<Sum> b dphi(-g + t)\<close> with
  \<open>dphi(x) = 1/(1 - x/s)\<close> and \<open>hess\<close> is the sum of the corresponding second
  derivatives (the derivative of \<open>grad\<close> in \<open>t\<close>, by \<open>hess_sum_is_derivative\<close>); the
  update is the plain quotient, with no line search, no convergence check and no guard
  on \<open>hess\<close>.
\<close>

theorem rescale_berg_newton:
  assumes "length a = length f" "length b = length g"
  shows "rescale_berg f g a b rho rho2 nits init =
         Inr ((newton_update f g a b rho (or_default rho2 rho) ^^ nat (or_default nits 10))
                (or_default init 0))"
  unfolding rescale_berg_def Let_def
  by (rule for_range_total) (rule newton_body_update [OF assms])

theorem rescale_berg_newton_witness:
  "length [1::real] = length [0::real] \<and> length [1::real] = length [1::real] \<and>
   rescale_berg [0] [1] [1] [1] 2 None (Some 1) (Some 0) = Inr (6 / 13)"
  using rescale_berg_newton [of "[1]" "[0]" "[1]" "[1]" 2 None "Some 1" "Some 0"]
  by (simp add: newton_update_def grad_sum_def hess_sum_def dphi_def d2phi_def power2_eq_square)

subsection \<open>C4: the F loop\<close>

text \<open>
  C4: \<open>f_sinkhorn_loop\<close> performs one alternating update: \<open>g = -aprox_berg(-sinkx(C, f, a,
  eps), eps, rho2)\<close>, then \<open>f' = -aprox_berg(-sinky(C, g, b, eps), eps, rho)\<close>, and
  returns \<open>(f', g)\<close>; no translation is computed or applied.
\<close>

theorem f_sinkhorn_loop_update:
  "f_sinkhorn_loop sinkx sinky f a b C eps rho rho2 =
   err_bind (sinkx C f a eps) (\<lambda>sx.
   err_bind (sinky C (vneg (aprox_berg (vneg sx) eps (or_default rho2 rho))) b eps) (\<lambda>sy.
     Inr (vneg (aprox_berg (vneg sy) eps rho),
          vneg (aprox_berg (vneg sx) eps (or_default rho2 rho)))))"
  by (simp add: f_sinkhorn_loop_def Let_def)

subsection \<open>C5: the H loop\<close>

text \<open>
  C5: \<open>h_sinkhorn_loop\<close> runs \<open>nits\<close> (20 when left out) passes that recompute the
  shift \<open>t\<close> by \<open>rescale_berg\<close> from the shifted Berg proximal update
  \<open>g = -aprox_berg(-(gs - t), eps, rho2) + t\<close> of \<open>g\<close>, where \<open>gs = sinkx(C, f, a, eps)\<close>,
  with \<open>f\<close> fixed and \<open>t\<close> starting at 0; then \<open>nits\<close> passes that do the same from the
  shifted Berg proximal update \<open>f = -aprox_berg(-(fs + t), eps, rho) - t\<close> of \<open>f\<close>, where
  \<open>fs = sinky(C, g, b, eps)\<close>, with \<open>g\<close> fixed; then one more
  \<open>t = rescale_berg(f, g, a, b, rho, rho2)\<close>; and returns \<open>(f + t, g - t)\<close>.
\<close>

theorem h_sinkhorn_loop_structure:
  "h_sinkhorn_loop sinkx sinky f a b C eps rho rho2 nits =
   (let r2 = or_default rho2 rho; n = or_default nits 20
    in err_bind (sinkx C f a eps) (\<lambda>gs.
       err_bind (for_range (nat n)
                   (\<lambda>t. rescale_berg f
                          (vadd_s (vneg (aprox_berg (vneg (vsub_s gs t)) eps r2)) t)
                          a b rho (Some r2) (Some n) (Some t))
                   0) (\<lambda>t1.
       err_bind (sinky C (vadd_s (vneg (aprox_berg (vneg (vsub_s gs t1)) eps r2)) t1) b eps) (\<lambda>fs.
       err_bind (for_range (nat n)
                   (\<lambda>t. rescale_berg
                          (vsub_s (vneg (aprox_berg (vneg (vadd_s fs t)) eps rho)) t)
                          (vadd_s (vneg (aprox_berg (vneg (vsub_s gs t1)) eps r2)) t1)
                          a b rho (Some r2) (Some n) (Some t))
                   t1) (\<lambda>t2.
       err_bind (rescale_berg
                   (vsub_s (vneg (aprox_berg (vneg (vadd_s fs t2)) eps rho)) t2)
                   (vadd_s (vneg (aprox_berg (vneg (vsub_s gs t1)) eps r2)) t1)
                   a b rho (Some r2) (Some 10) (Some 0)) (\<lambda>t3.
         Inr (vadd_s (vsub_s (vneg (aprox_berg (vneg (vadd_s fs t2)) eps rho)) t2) t3,
              vsub_s (vadd_s (vneg (aprox_berg (vneg (vsub_s gs t1)) eps r2)) t1) t3)))))))"
proof -
  have d: "rescale_berg u v a b rho (Some r) None None
         = rescale_berg u v a b rho (Some r) (Some 10) (Some 0)" for u v r
    by (simp add: rescale_berg_def)
  show ?thesis
    unfolding h_sinkhorn_loop_def Let_def d h_update_g_def h_update_f_def
    by (simp only: for_range_dead_component)
qed

subsection \<open>C6: the G loop\<close>

text \<open>
  C6: \<open>g_sinkhorn_loop\<close> takes the shift \<open>t\<close> as an argument and returns a triple
  \<open>(f, g, t)\<close>: it updates \<open>g\<close> with the incoming \<open>t\<close>, recomputes \<open>t\<close> by
  \<open>rescale_berg\<close>, updates \<open>f\<close> with the recomputed \<open>t\<close>, and recomputes \<open>t\<close> once more
  before returning, two calls of \<open>rescale_berg\<close> in all.
\<close>

theorem g_sinkhorn_loop_update:
  "g_sinkhorn_loop sinkx sinky f g t a b C eps rho rho2 =
   err_bind (sinkx C f a eps) (\<lambda>sx.
   err_bind (rescale_berg f (vneg (aprox_berg (vneg (vsub_s sx t)) eps (or_default rho2 rho)))
               a b rho (Some (or_default rho2 rho)) (Some 10) (Some 0)) (\<lambda>t1.
   err_bind (sinky C (vneg (aprox_berg (vneg (vsub_s sx t)) eps (or_default rho2 rho))) b eps) (\<lambda>sy.
   err_bind (rescale_berg (vneg (aprox_berg (vneg (vadd_s sy t1)) eps rho))
               (vneg (aprox_berg (vneg (vsub_s sx t)) eps (or_default rho2 rho)))
               a b rho (Some (or_default rho2 rho)) (Some 10) (Some 0)) (\<lambda>t2.
     Inr (vneg (aprox_berg (vneg (vadd_s sy t1)) eps rho),
          vneg (aprox_berg (vneg (vsub_s sx t)) eps (or_default rho2 rho)),
          t2)))))"
  by (simp add: g_sinkhorn_loop_def Let_def rescale_berg_def)

subsection \<open>C7: translation of the potentials\<close>

text \<open>
  C7: translating the potentials, \<open>f \<rightarrow> f + s\<close> and \<open>g \<rightarrow> g - s\<close>, shifts the argument of
  the invariant gradient: \<open>grad_invariant(t, f + s, g - s, a, b, rho, rho2) =
  grad_invariant(t + s, f, g, a, b, rho, rho2)\<close>. Hence the gradient of the translated
  potentials at \<open>t - s\<close> is the gradient of the original ones at \<open>t\<close>: a stationary
  point moves by \<open>-s\<close>.
\<close>

theorem grad_invariant_translation:
  "grad_invariant t (vadd_s f s) (vsub_s g s) a b rho rho2 =
   grad_invariant (t + s) f g a b rho rho2 \<and>
   grad_invariant (t - s) (vadd_s f s) (vsub_s g s) a b rho rho2 =
   grad_invariant t f g a b rho rho2"
proof -
  have shift: "grad_invariant r (vadd_s f s) (vsub_s g s) a b rho rho2 =
               grad_invariant (r + s) f g a b rho rho2" for r
  proof -
    have "vsub_s (vneg (vadd_s f s)) r = vsub_s (vneg f) (r + s)"
      by (simp add: vsub_s_def vneg_def vadd_s_def)
    moreover have "vadd_s (vneg (vsub_s g s)) r = vadd_s (vneg g) (r + s)"
      by (simp add: vsub_s_def vneg_def vadd_s_def)
    ultimately show ?thesis by (simp add: grad_invariant_def)
  qed
  show ?thesis using shift [of t] shift [of "t - s"] by simp
qed

subsection \<open>C8: the G loop does not read its \<open>g\<close>\<close>

text \<open>
  C8: the result of \<open>g_sinkhorn_loop\<close> does not depend on its argument \<open>g\<close>: for any two
  arrays \<open>g1\<close> and \<open>g2\<close> and the same other arguments the returned triples are equal.
\<close>

theorem g_sinkhorn_loop_ignores_g:
  "g_sinkhorn_loop sinkx sinky f g1 t a b C eps rho rho2 =
   g_sinkhorn_loop sinkx sinky f g2 t a b C eps rho rho2"
  by (simp add: g_sinkhorn_loop_def)

subsection \<open>C9: defaults of the tunable parameters\<close>

text \<open>
  The code does not do what C9 says: \<open>rho2\<close> has an implicit default. The call of
  \<open>rescale_berg\<close> that leaves \<open>rho2\<close> out, with \<open>rho = 2\<close>, returns the value of the call
  with \<open>rho2 = 2\<close>, which is not the value of the call with \<open>rho2 = 1\<close>.
\<close>

theorem rho2_default_counterexample:
  "rescale_berg [0] [1] [1] [1] 2 None (Some 1) (Some 0) = Inr (6 / 13) \<and>
   rescale_berg [0] [1] [1] [1] 2 (Some 2) (Some 1) (Some 0) = Inr (6 / 13) \<and>
   rescale_berg [0] [1] [1] [1] 2 (Some 1) (Some 1) (Some 0) = Inr (2 / 3)"
  by (simp add: rescale_berg_def newton_body_def grad_invariant_def hess_invariant_def
      broadcast2_def grad_phis_berg_def hess_phis_berg_def vsub_s_def vadd_s_def vneg_def
      s_div_v_def s_sub_v_def vdiv_s_def s_mul_v_def vsquare_def power2_eq_square)

text \<open>
  C9, amended: \<open>eps\<close> and \<open>rho\<close> are explicit arguments without a default; \<open>rho2\<close> is
  optional in \<open>dual_score_ent\<close>, \<open>rescale_berg\<close>, \<open>f_sinkhorn_loop\<close>, \<open>h_sinkhorn_loop\<close>
  and \<open>g_sinkhorn_loop\<close> and takes the value of \<open>rho\<close> when it is left out; the other
  defaults are the iteration counts (10 in \<open>rescale_berg\<close>, 20 in \<open>h_sinkhorn_loop\<close>)
  and the start value 0 of \<open>rescale_berg\<close>.
\<close>

theorem rho2_defaults_to_rho:
  "dual_score_ent f g a b C eps rho None = dual_score_ent f g a b C eps rho (Some rho) \<and>
   rescale_berg f g a b rho None nits init = rescale_berg f g a b rho (Some rho) nits init \<and>
   f_sinkhorn_loop sinkx sinky f a b C eps rho None
     = f_sinkhorn_loop sinkx sinky f a b C eps rho (Some rho) \<and>
   h_sinkhorn_loop sinkx sinky f a b C eps rho None hnits
     = h_sinkhorn_loop sinkx sinky f a b C eps rho (Some rho) hnits \<and>
   g_sinkhorn_loop sinkx sinky f g t a b C eps rho None
     = g_sinkhorn_loop sinkx sinky f g t a b C eps rho (Some rho) \<and>
   rescale_berg f g a b rho rho2 None init = rescale_berg f g a b rho rho2 (Some 10) init \<and>
   rescale_berg f g a b rho rho2 nits None = rescale_berg f g a b rho rho2 nits (Some 0) \<and>
   h_sinkhorn_loop sinkx sinky f a b C eps rho rho2 None
     = h_sinkhorn_loop sinkx sinky f a b C eps rho rho2 (Some 20)"
  by (simp add: dual_score_ent_def rescale_berg_def f_sinkhorn_loop_def h_sinkhorn_loop_def
      g_sinkhorn_loop_def)

end
